theory Spec2Isabelle
  imports Main
begin

section \<open>The syntax tree handed over by the parser\<close>

text \<open>
  Both analysers work on the tree that Python's \<^verbatim>\<open>ast.parse\<close> returns. The node
  classes the analysers test for are constructors of their own, with the fields in
  the order of the class's \<^verbatim>\<open>_fields\<close>; every other statement or expression class is
  \<open>Other\<close>, holding its child nodes in field order. The expression-context markers
  (\<^verbatim>\<open>Load\<close>, \<^verbatim>\<open>Store\<close>, \<^verbatim>\<open>Del\<close>) are left out: they are leaves that no test of
  the analysers matches. Fields that are not nodes (\<^verbatim>\<open>type_comment\<close>, \<^verbatim>\<open>level\<close>) are
  left out as well, and a \<^verbatim>\<open>None\<close> entry of \<^verbatim>\<open>kw_defaults\<close> is no element of the list.
\<close>

datatype node =
    Module "node list"
    \<comment> \<open>body\<close>
  | FunctionDef string node "node list" "node list" "node option" "node list" int
    \<comment> \<open>name, args, body, decorator_list, returns, type_params, lineno\<close>
  | AsyncFunctionDef string node "node list" "node list" "node option" "node list" int
    \<comment> \<open>name, args, body, decorator_list, returns, type_params, lineno\<close>
  | ClassDef string "node list" "node list" "node list" "node list" "node list" int
    \<comment> \<open>name, bases, keywords, body, decorator_list, type_params, lineno\<close>
  | Import "node list" int
    \<comment> \<open>names, lineno\<close>
  | ImportFrom "string option" "node list" int
    \<comment> \<open>module, names, lineno\<close>
  | Alias string "string option"
    \<comment> \<open>name, asname\<close>
  | Arguments "node list" "node list" "node option" "node list" "node list" "node option"
      "node list"
    \<comment> \<open>posonlyargs, args, vararg, kwonlyargs, kw_defaults, kwarg, defaults\<close>
  | Arg string "node option" int
    \<comment> \<open>arg, annotation, lineno\<close>
  | Call node "node list" "node list" int
    \<comment> \<open>func, args, keywords, lineno\<close>
  | Name string int
    \<comment> \<open>id, lineno\<close>
  | Attribute node string int
    \<comment> \<open>value, attr, lineno\<close>
  | Other "node list" "int option"
    \<comment> \<open>the child nodes in field order, lineno when the class has one\<close>

text \<open>\<^verbatim>\<open>ast.iter_child_nodes\<close>: the fields that are nodes, and the items of the fields
  that are lists, in field order.\<close>

fun opt_nodes :: "node option \<Rightarrow> node list" where
  "opt_nodes None = []"
| "opt_nodes (Some n) = [n]"

fun iter_child_nodes :: "node \<Rightarrow> node list" where
  "iter_child_nodes (Module body) = body"
| "iter_child_nodes (FunctionDef name args body decorator_list returns type_params lineno) =
     args # body @ decorator_list @ opt_nodes returns @ type_params"
| "iter_child_nodes (AsyncFunctionDef name args body decorator_list returns type_params lineno) =
     args # body @ decorator_list @ opt_nodes returns @ type_params"
| "iter_child_nodes (ClassDef name bases keywords body decorator_list type_params lineno) =
     bases @ keywords @ body @ decorator_list @ type_params"
| "iter_child_nodes (Import names lineno) = names"
| "iter_child_nodes (ImportFrom module names lineno) = names"
| "iter_child_nodes (Alias name asname) = []"
| "iter_child_nodes (Arguments posonlyargs args vararg kwonlyargs kw_defaults kwarg defaults) =
     posonlyargs @ args @ opt_nodes vararg @ kwonlyargs @ kw_defaults @ opt_nodes kwarg @ defaults"
| "iter_child_nodes (Arg arg annotation lineno) = opt_nodes annotation"
| "iter_child_nodes (Call func args keywords lineno) = func # args @ keywords"
| "iter_child_nodes (Name ident lineno) = []"
| "iter_child_nodes (Attribute val attr lineno) = [val]"
| "iter_child_nodes (Other children lineno) = children"

text \<open>
  \<^verbatim>\<open>ast.walk\<close> keeps a queue: it takes the first node, appends that node's children
  at the end and yields the node, until the queue is empty (breadth first). The queue
  shrinks in the total weight of its nodes.
\<close>

definition weight :: "node \<Rightarrow> nat" where
  "weight n = Suc (size n)"

lemma opt_nodes_size: "sum_list (map weight (opt_nodes x)) \<le> size_option size x"
  by (cases x) (auto simp: weight_def)

lemma list_nodes_size: "sum_list (map weight xs) \<le> size_list size xs"
  by (induction xs) (auto simp: weight_def)

lemma iter_child_nodes_size: "sum_list (map weight (iter_child_nodes n)) < weight n"
proof (cases n)
  case (Module body)
  then show ?thesis using list_nodes_size [of body] by (simp add: weight_def)
next
  case (FunctionDef name args body decorator_list returns type_params lineno)
  then show ?thesis
    using list_nodes_size [of body] list_nodes_size [of decorator_list]
      list_nodes_size [of type_params] opt_nodes_size [of returns] by (simp add: weight_def)
next
  case (AsyncFunctionDef name args body decorator_list returns type_params lineno)
  then show ?thesis
    using list_nodes_size [of body] list_nodes_size [of decorator_list]
      list_nodes_size [of type_params] opt_nodes_size [of returns] by (simp add: weight_def)
next
  case (ClassDef name bases kws body decorator_list type_params lineno)
  then show ?thesis
    using list_nodes_size [of bases] list_nodes_size [of kws] list_nodes_size [of body]
      list_nodes_size [of decorator_list] list_nodes_size [of type_params] by (simp add: weight_def)
next
  case (Import names lineno)
  then show ?thesis using list_nodes_size [of names] by (simp add: weight_def)
next
  case (ImportFrom module names lineno)
  then show ?thesis using list_nodes_size [of names] by (simp add: weight_def)
next
  case (Alias name asname)
  then show ?thesis by (simp add: weight_def)
next
  case (Arguments posonlyargs args vararg kwonlyargs kw_defaults kwarg defaults)
  then show ?thesis
    using list_nodes_size [of posonlyargs] list_nodes_size [of args]
      list_nodes_size [of kwonlyargs] list_nodes_size [of kw_defaults]
      list_nodes_size [of defaults] opt_nodes_size [of vararg] opt_nodes_size [of kwarg]
    by (simp add: weight_def)
next
  case (Arg arg annotation lineno)
  then show ?thesis using opt_nodes_size [of annotation] by (simp add: weight_def)
next
  case (Call func args kws lineno)
  then show ?thesis using list_nodes_size [of args] list_nodes_size [of kws] by (simp add: weight_def)
next
  case (Name ident lineno)
  then show ?thesis by (simp add: weight_def)
next
  case (Attribute val attr lineno)
  then show ?thesis by (simp add: weight_def)
next
  case (Other children lineno)
  then show ?thesis using list_nodes_size [of children] by (simp add: weight_def)
qed

function walk_queue :: "node list \<Rightarrow> node list" where
  "walk_queue [] = []"
| "walk_queue (n # todo) = n # walk_queue (todo @ iter_child_nodes n)"
  by pat_completeness auto
termination
  by (relation "measure (\<lambda>todo. sum_list (map weight todo))")
     (auto simp: iter_child_nodes_size)

definition walk :: "node \<Rightarrow> node list" where
  "walk n = walk_queue [n]"

section \<open>Exceptions and loops\<close>

text \<open>
  A Python exception is a value: its class, as far as the handlers of the analysers tell
  classes apart, and the text \<^verbatim>\<open>str(e)\<close> that the diagnostics print. A method that
  mutates its object returns the exception it raised, if any, with the object as it is
  at that moment. A \<^verbatim>\<open>for\<close> loop stops at the first exception its body raises.
\<close>

datatype exn_class = SyntaxError | KeyError | OtherException

datatype exn = Exn exn_class string

fun is_SyntaxError :: "exn \<Rightarrow> bool" where
  "is_SyntaxError (Exn c msg) = (c = SyntaxError)"

fun str_exn :: "exn \<Rightarrow> string" where
  "str_exn (Exn c msg) = msg"

fun for_each :: "('a \<Rightarrow> 's \<Rightarrow> exn option \<times> 's) \<Rightarrow> 'a list \<Rightarrow> 's \<Rightarrow> exn option \<times> 's" where
  "for_each body [] s = (None, s)"
| "for_each body (x # xs) s =
     (case body x s of
        (None, s') \<Rightarrow> for_each body xs s'
      | (Some e, s') \<Rightarrow> (Some e, s'))"

section \<open>The relationship detector (relationships.py)\<close>

record call_edge =
  caller :: "string option"
  callee :: string
  line :: int
  edge_type :: string

text \<open>The instance: \<^verbatim>\<open>self.relationships\<close>, \<^verbatim>\<open>self.function_calls\<close> and
  \<^verbatim>\<open>self.current_function\<close>, as \<^verbatim>\<open>__init__\<close> sets them.\<close>

record detector =
  relationships :: "call_edge list"
  function_calls :: "string \<rightharpoonup> string list"
  current_function :: "string option"

definition new_detector :: detector where
  "new_detector = \<lparr>relationships = [], function_calls = Map.empty, current_function = None\<rparr>"

text \<open>Python's truth value of \<^verbatim>\<open>self.current_function\<close>: \<^verbatim>\<open>None\<close> and the empty
  string are false.\<close>

fun truthy :: "string option \<Rightarrow> bool" where
  "truthy None = False"
| "truthy (Some s) = (s \<noteq> [])"

text \<open>\<^verbatim>\<open>self.function_calls[self.current_function].append(called)\<close>: a key that is
  missing raises \<^verbatim>\<open>KeyError\<close>.\<close>

definition append_function_call :: "string \<Rightarrow> detector \<Rightarrow> exn option \<times> detector" where
  "append_function_call called d =
     (case current_function d of
        None \<Rightarrow> (None, d)
      | Some f \<Rightarrow>
          (case function_calls d f of
             None \<Rightarrow> (Some (Exn KeyError f), d)
           | Some calls \<Rightarrow> (None, d\<lparr>function_calls := (function_calls d)(f \<mapsto> calls @ [called])\<rparr>)))"

definition append_relationship :: "string \<Rightarrow> int \<Rightarrow> string \<Rightarrow> detector \<Rightarrow> detector" where
  "append_relationship called lineno kind d =
     d\<lparr>relationships := relationships d @
        [\<lparr>caller = current_function d, callee = called, line = lineno, edge_type = kind\<rparr>]\<rparr>"

text \<open>The body of the loop of \<^verbatim>\<open>_find_calls_in_node\<close>, for one node \<open>child\<close> of the
  walk.\<close>

fun find_calls_step :: "node \<Rightarrow> detector \<Rightarrow> exn option \<times> detector" where
  "find_calls_step (Call (Name called ln) args kws lineno) d =
     (let d' = append_relationship called lineno ''function_call'' d
      in if truthy (current_function d') then append_function_call called d' else (None, d'))"
| "find_calls_step (Call (Attribute val method ln) args kws lineno) d =
     (None, append_relationship method lineno ''method_call'' d)"
| "find_calls_step child d = (None, d)"

definition find_calls_in_node :: "node \<Rightarrow> detector \<Rightarrow> exn option \<times> detector" where
  "find_calls_in_node n d = for_each find_calls_step (walk n) d"

text \<open>\<^verbatim>\<open>isinstance(node, (ast.FunctionDef, ast.AsyncFunctionDef))\<close>, with the name of
  the node.\<close>

fun function_name :: "node \<Rightarrow> string option" where
  "function_name (FunctionDef name args body decorator_list returns type_params lineno) = Some name"
| "function_name (AsyncFunctionDef name args body decorator_list returns type_params lineno) =
     Some name"
| "function_name n = None"

definition analyze_calls_step :: "node \<Rightarrow> detector \<Rightarrow> exn option \<times> detector" where
  "analyze_calls_step n d =
     (case function_name n of
        Some name \<Rightarrow>
          find_calls_in_node n
            (d\<lparr>current_function := Some name, function_calls := (function_calls d)(name \<mapsto> [])\<rparr>)
      | None \<Rightarrow> (None, d))"

definition analyze_calls :: "node \<Rightarrow> detector \<Rightarrow> exn option \<times> detector" where
  "analyze_calls tree d = for_each analyze_calls_step (walk tree) d"

text \<open>
  The statistics dictionary: a key that is absent is \<open>None\<close>. The two counting
  dictionaries keep their keys in insertion order, so they are association lists;
  \<^verbatim>\<open>sorted(..., reverse=True)\<close> is CPython's stable sort between two reversals, and
  \<^verbatim>\<open>[:limit]\<close> is Python's slice.
\<close>

record stats =
  total_calls :: "int option"
  unique_callers :: "int option"
  unique_callees :: "int option"
  most_called :: "(string \<times> int) list option"
  most_calls_from :: "(string option \<times> int) list option"

definition empty_stats :: stats where
  "empty_stats = \<lparr>total_calls = None, unique_callers = None, unique_callees = None,
     most_called = None, most_calls_from = None\<rparr>"

fun count_key :: "'k \<Rightarrow> ('k \<times> int) list \<Rightarrow> ('k \<times> int) list" where
  "count_key k [] = [(k, 0 + 1)]"
| "count_key k ((k', c) # rest) =
     (if k' = k then (k', c + 1) # rest else (k', c) # count_key k rest)"

definition sorted_reverse :: "('a \<Rightarrow> int) \<Rightarrow> 'a list \<Rightarrow> 'a list" where
  "sorted_reverse key xs = rev (sort_key key (rev xs))"

definition slice_to :: "int \<Rightarrow> 'a list \<Rightarrow> 'a list" where
  "slice_to limit xs =
     (if 0 \<le> limit then take (nat limit) xs else take (length xs - nat (- limit)) xs)"

definition get_most_called :: "int \<Rightarrow> detector \<Rightarrow> (string \<times> int) list" where
  "get_most_called limit d =
     slice_to limit
       (sorted_reverse snd (foldl (\<lambda>call_counts r. count_key (callee r) call_counts) []
          (relationships d)))"

definition get_most_calls_from :: "int \<Rightarrow> detector \<Rightarrow> (string option \<times> int) list" where
  "get_most_calls_from limit d =
     slice_to limit
       (sorted_reverse snd (foldl (\<lambda>call_counts r. count_key (caller r) call_counts) []
          (relationships d)))"

definition calculate_stats :: "detector \<Rightarrow> stats" where
  "calculate_stats d =
     (if relationships d = [] then
        \<lparr>total_calls = Some 0, unique_callers = Some 0, unique_callees = Some 0,
         most_called = None, most_calls_from = None\<rparr>
      else
        \<lparr>total_calls = Some (int (length (relationships d))),
         unique_callers = Some (int (length (remdups (map caller (relationships d))))),
         unique_callees = Some (int (length (remdups (map callee (relationships d))))),
         most_called = Some (get_most_called 5 d),
         most_calls_from = Some (get_most_calls_from 5 d)\<rparr>)"

text \<open>
  The dictionary \<^verbatim>\<open>detect_relationships\<close> returns, and the method itself. The parser
  is a parameter: it returns the tree or the exception \<^verbatim>\<open>ast.parse\<close> raises. The
  \<^verbatim>\<open>try\<close> block covers the parse and the walk, and its handler takes
  \<^verbatim>\<open>SyntaxError\<close> only; any other exception leaves the method.
\<close>

record detection =
  res_relationships :: "call_edge list"
  res_stats :: stats

definition detect_relationships ::
  "(string \<Rightarrow> exn + node) \<Rightarrow> detector \<Rightarrow> string \<Rightarrow> (exn + detection) \<times> detector" where
  "detect_relationships parse self code =
     (let d = self\<lparr>relationships := [], function_calls := Map.empty\<rparr>
      in case (case parse code of Inl e \<Rightarrow> (Some e, d) | Inr tree \<Rightarrow> analyze_calls tree d) of
           (Some e, d') \<Rightarrow>
             (if is_SyntaxError e
              then (Inr \<lparr>res_relationships = [], res_stats = empty_stats\<rparr>, d')
              else (Inl e, d'))
         | (None, d') \<Rightarrow>
             (Inr \<lparr>res_relationships = relationships d', res_stats = calculate_stats d'\<rparr>, d'))"

section \<open>The structure extractor (extractor.py)\<close>

text \<open>
  The dictionaries the extractor appends: one per class, per function and per imported
  name. The dictionary of a file holds the lists; \<^verbatim>\<open>__init__\<close> leaves the keys
  \<^verbatim>\<open>file_path\<close> and \<^verbatim>\<open>total_lines\<close> out, \<^verbatim>\<open>extract_from_file\<close> sets them.
\<close>

record class_entity =
  cls_name :: string
  cls_line :: int
  methods :: "string list"
  method_count :: int
  bases :: "string list"
  cls_docstring :: string

record function_entity =
  fn_name :: string
  fn_line :: int
  args :: "string list"
  arg_count :: int
  fn_decorators :: "string list"
  fn_docstring :: string

datatype import_record =
    ImportModule string "string option" int
    \<comment> \<open>type "import": module, alias, line\<close>
  | ImportName string string "string option" int
    \<comment> \<open>type "from": module, name, alias, line\<close>

record entity_dict =
  classes :: "class_entity list"
  "functions" :: "function_entity list"
  "imports" :: "import_record list"
  decorators :: "string list"
  file_path :: "string option"
  total_lines :: "int option"

record extractor =
  entities :: entity_dict
  current_file :: string

definition new_extractor :: extractor where
  "new_extractor =
     \<lparr>entities = \<lparr>classes = [], functions = [], imports = [], decorators = [],
        file_path = None, total_lines = None\<rparr>,
      current_file = []\<rparr>"

text \<open>
  The functions of the \<^verbatim>\<open>ast\<close> module the extractor calls are parameters:
  \<^verbatim>\<open>ast.parse\<close> (the tree, or the exception raised), \<^verbatim>\<open>ast.unparse\<close> and
  \<^verbatim>\<open>ast.get_docstring\<close>.
\<close>

record ast_module =
  ast_parse :: "string \<Rightarrow> exn + node"
  ast_unparse :: "node \<Rightarrow> string"
  ast_get_docstring :: "node \<Rightarrow> string option"

text \<open>\<^verbatim>\<open>isinstance(n, ast.FunctionDef)\<close>, with the name; an \<^verbatim>\<open>async def\<close> is of
  another class.\<close>

fun FunctionDef_name :: "node \<Rightarrow> string option" where
  "FunctionDef_name (FunctionDef name arguments body decorator_list returns type_params lineno) =
     Some name"
| "FunctionDef_name n = None"

text \<open>\<^verbatim>\<open>x or ""\<close> for a docstring \<open>x\<close> that is \<^verbatim>\<open>None\<close> or a string.\<close>

fun or_empty :: "string option \<Rightarrow> string" where
  "or_empty None = []"
| "or_empty (Some s) = s"

fun extract_class :: "ast_module \<Rightarrow> node \<Rightarrow> entity_dict \<Rightarrow> entity_dict" where
  "extract_class lib (ClassDef name base_nodes kws body decorator_list type_params lineno) ents =
     (let ms = List.map_filter FunctionDef_name body;
          bs = map (ast_unparse lib) base_nodes
      in ents\<lparr>classes := classes ents @
           [\<lparr>cls_name = name, cls_line = lineno, methods = ms,
             method_count = int (length ms),
             bases = (if bs \<noteq> [] then bs else [''object'']),
             cls_docstring = or_empty (ast_get_docstring lib
               (ClassDef name base_nodes kws body decorator_list type_params lineno))\<rparr>]\<rparr>)"
| "extract_class lib n ents = ents"

text \<open>\<^verbatim>\<open>[arg.arg for arg in node.args.args]\<close>: the parser builds \<^verbatim>\<open>node.args\<close> as an
  \<^verbatim>\<open>arguments\<close> node whose \<^verbatim>\<open>args\<close> are \<^verbatim>\<open>arg\<close> nodes.\<close>

fun arguments_args :: "node \<Rightarrow> node list" where
  "arguments_args (Arguments posonlyargs as vararg kwonlyargs kw_defaults kwarg defaults) = as"
| "arguments_args n = []"

fun arg_arg :: "node \<Rightarrow> string option" where
  "arg_arg (Arg a annotation lineno) = Some a"
| "arg_arg n = None"

fun extract_function :: "ast_module \<Rightarrow> node \<Rightarrow> entity_dict \<Rightarrow> entity_dict" where
  "extract_function lib (FunctionDef name arguments body decorator_list returns type_params lineno)
     ents =
     (let ds = map (ast_unparse lib) decorator_list;
          as = List.map_filter arg_arg (arguments_args arguments)
      in ents\<lparr>functions := functions ents @
           [\<lparr>fn_name = name, fn_line = lineno, args = as, arg_count = int (length as),
             fn_decorators = ds,
             fn_docstring = or_empty (ast_get_docstring lib
               (FunctionDef name arguments body decorator_list returns type_params lineno))\<rparr>]\<rparr>)"
| "extract_function lib n ents = ents"

text \<open>One record per \<^verbatim>\<open>alias\<close> of the statement; \<^verbatim>\<open>node.module or ""\<close> for a relative
  import without a module.\<close>

fun alias_fields :: "node \<Rightarrow> (string \<times> string option) option" where
  "alias_fields (Alias name asname) = Some (name, asname)"
| "alias_fields n = None"

fun extract_import :: "node \<Rightarrow> entity_dict \<Rightarrow> entity_dict" where
  "extract_import (Import names lineno) ents =
     ents\<lparr>imports := imports ents @
       map (\<lambda>(name, asname). ImportModule name asname lineno)
         (List.map_filter alias_fields names)\<rparr>"
| "extract_import (ImportFrom module names lineno) ents =
     ents\<lparr>imports := imports ents @
       map (\<lambda>(name, asname). ImportName (or_empty module) name asname lineno)
         (List.map_filter alias_fields names)\<rparr>"
| "extract_import n ents = ents"

text \<open>The body of the loop of \<^verbatim>\<open>_walk_tree\<close>: the first test that matches decides.\<close>

fun walk_tree_step :: "ast_module \<Rightarrow> entity_dict \<Rightarrow> node \<Rightarrow> entity_dict" where
  "walk_tree_step lib ents (ClassDef name base_nodes kws body decorator_list type_params lineno) =
     extract_class lib (ClassDef name base_nodes kws body decorator_list type_params lineno) ents"
| "walk_tree_step lib ents (FunctionDef name arguments body decorator_list returns type_params lineno) =
     extract_function lib
       (FunctionDef name arguments body decorator_list returns type_params lineno) ents"
| "walk_tree_step lib ents (Import names lineno) = extract_import (Import names lineno) ents"
| "walk_tree_step lib ents (ImportFrom module names lineno) =
     extract_import (ImportFrom module names lineno) ents"
| "walk_tree_step lib ents n = ents"

definition walk_tree :: "ast_module \<Rightarrow> node \<Rightarrow> entity_dict \<Rightarrow> entity_dict" where
  "walk_tree lib tree ents = foldl (walk_tree_step lib) ents (walk tree)"

text \<open>\<^verbatim>\<open>code.split('\n')\<close>: the pieces between the line feeds, one more than there are
  line feeds.\<close>

fun split :: "char \<Rightarrow> string \<Rightarrow> string list" where
  "split sep [] = [[]]"
| "split sep (c # cs) =
     (if c = sep then [] # split sep cs
      else (case split sep cs of piece # pieces \<Rightarrow> (c # piece) # pieces | [] \<Rightarrow> [[c]]))"

definition line_feed :: char where
  "line_feed = CHR 0x0A"

text \<open>
  \<^verbatim>\<open>extract_from_file\<close>. Reading the file is a parameter: the text, or the exception
  that opening or reading raises. The result is the value returned (or the exception
  that leaves the method), the instance afterwards, and the lines printed.
\<close>

definition extract_from_file ::
  "ast_module \<Rightarrow> (string \<Rightarrow> exn + string) \<Rightarrow> extractor \<Rightarrow> string \<Rightarrow>
     (exn + entity_dict) \<times> extractor \<times> string list" where
  "extract_from_file lib read_file self path =
     (case read_file path of
        Inl e \<Rightarrow>
          (Inr (entities self), self,
           [''Error reading file '' @ path @ '': '' @ str_exn e])
      | Inr code \<Rightarrow>
          (let self1 = self\<lparr>current_file := path,
                 entities :=
                   \<lparr>classes = [], functions = [], imports = [], decorators = [],
                    file_path = Some path,
                    total_lines = Some (int (length (split line_feed code)))\<rparr>\<rparr>
           in case ast_parse lib code of
                Inl e \<Rightarrow>
                  (if is_SyntaxError e
                   then (Inr (entities self1), self1,
                         [''Syntax error in '' @ path @ '': '' @ str_exn e])
                   else (Inl e, self1, []))
              | Inr tree \<Rightarrow>
                  (let self2 = self1\<lparr>entities := walk_tree lib tree (entities self1)\<rparr>
                   in (Inr (entities self2), self2, []))))"

section \<open>What the detector computes, in closed form\<close>

text \<open>
  The edges one call node contributes under a given caller, the edges of one function
  definition (every call node of its subtree, in the order of the walk), and the edges
  of a tree (the function definitions in the order of the walk of the whole tree).
\<close>

fun call_edges :: "string option \<Rightarrow> node \<Rightarrow> call_edge list" where
  "call_edges c (Call (Name called ln) as kws lineno) =
     [\<lparr>caller = c, callee = called, line = lineno, edge_type = ''function_call''\<rparr>]"
| "call_edges c (Call (Attribute val method ln) as kws lineno) =
     [\<lparr>caller = c, callee = method, line = lineno, edge_type = ''method_call''\<rparr>]"
| "call_edges c n = []"

definition function_edges :: "node \<Rightarrow> call_edge list" where
  "function_edges n =
     (case function_name n of
        Some f \<Rightarrow> concat (map (call_edges (Some f)) (walk n))
      | None \<Rightarrow> [])"

definition tree_edges :: "node \<Rightarrow> call_edge list" where
  "tree_edges tree = concat (map function_edges (walk tree))"

text \<open>The statistics as a function of the edge list alone.\<close>

definition edge_stats :: "call_edge list \<Rightarrow> stats" where
  "edge_stats es = calculate_stats (new_detector\<lparr>relationships := es\<rparr>)"

text \<open>\<^verbatim>\<open>stats.get(key, default)\<close>, the way output.py and main.py read a count.\<close>

definition get_default :: "'a option \<Rightarrow> 'a \<Rightarrow> 'a" where
  "get_default v dflt = (case v of Some x \<Rightarrow> x | None \<Rightarrow> dflt)"

text \<open>Inside \<^verbatim>\<open>_find_calls_in_node\<close> the current function is bound to a name that is a
  key of \<^verbatim>\<open>function_calls\<close>.\<close>

definition bound :: "string \<Rightarrow> detector \<Rightarrow> bool" where
  "bound f d = (current_function d = Some f \<and> function_calls d f \<noteq> None)"

text \<open>
  For the ranking of callees: the keys of a counting dictionary stand in the order in
  which they were first inserted; \<open>first_seen\<close> is the position of the first edge that
  names a callee, \<open>incoming\<close> the number of edges that name it, and one entry ranks
  before another when its count is greater, or the counts are equal and its callee was
  seen first.
\<close>

definition first_seen :: "'a list \<Rightarrow> 'a \<Rightarrow> nat" where
  "first_seen ks k = length (takeWhile (\<lambda>x. x \<noteq> k) ks)"

definition first_seen_order :: "'a list \<Rightarrow> 'a list" where
  "first_seen_order ks = rev (remdups (rev ks))"

definition incoming :: "call_edge list \<Rightarrow> string \<Rightarrow> int" where
  "incoming es c = int (length (filter (\<lambda>e. callee e = c) es))"

definition ranks_before :: "'a list \<Rightarrow> 'a \<times> int \<Rightarrow> 'a \<times> int \<Rightarrow> bool" where
  "ranks_before ks a b =
     (snd b < snd a \<or> (snd a = snd b \<and> first_seen ks (fst a) < first_seen ks (fst b)))"

definition occurrences :: "'a list \<Rightarrow> 'a \<Rightarrow> int" where
  "occurrences ks k = int (length (filter (\<lambda>x. x = k) ks))"

text \<open>
  For the extractor: the direct body of a class definition, the test for an
  \<^verbatim>\<open>async def\<close>, and the line number a node carries (modules, parameter lists and
  aliases carry none here).
\<close>

fun ClassDef_body :: "node \<Rightarrow> node list option" where
  "ClassDef_body (ClassDef name base_nodes kws body decorator_list type_params l) = Some body"
| "ClassDef_body n = None"

fun is_AsyncFunctionDef :: "node \<Rightarrow> bool" where
  "is_AsyncFunctionDef (AsyncFunctionDef name arguments body decorator_list returns type_params l) =
     True"
| "is_AsyncFunctionDef n = False"

fun node_lineno :: "node \<Rightarrow> int option" where
  "node_lineno (Module body) = None"
| "node_lineno (FunctionDef name arguments body decorator_list returns type_params l) = Some l"
| "node_lineno (AsyncFunctionDef name arguments body decorator_list returns type_params l) = Some l"
| "node_lineno (ClassDef name base_nodes kws body decorator_list type_params l) = Some l"
| "node_lineno (Import names l) = Some l"
| "node_lineno (ImportFrom module names l) = Some l"
| "node_lineno (Alias name asname) = None"
| "node_lineno (Arguments posonlyargs as vararg kwonlyargs kw_defaults kwarg defaults) = None"
| "node_lineno (Arg a annotation l) = Some l"
| "node_lineno (Call func as kws l) = Some l"
| "node_lineno (Name ident l) = Some l"
| "node_lineno (Attribute val attr l) = Some l"
| "node_lineno (Other children l) = l"




section \<open>The traversal the specification asks for\<close>

lemma child_weight:
  assumes "c \<in> set (iter_child_nodes n)"
  shows "weight c < weight n"
proof -
  have "weight c \<le> sum_list (map weight (iter_child_nodes n))"
    using assms by (simp add: member_le_sum_list)
  then show ?thesis using iter_child_nodes_size [of n] by simp
qed

text \<open>
  Following the specification's words, not the source: one depth-first pre-order
  traversal of the whole tree, with a stack of enclosing function definitions. Entering
  a function definition binds the caller to its name for its subtree; every call node
  met, in a function or at module scope (caller absent), gives its edge once, under the
  innermost enclosing function.
\<close>

function spec_edges :: "string option \<Rightarrow> node \<Rightarrow> call_edge list" where
  "spec_edges c n =
     call_edges c n @
     concat (map (spec_edges (case function_name n of Some f \<Rightarrow> Some f | None \<Rightarrow> c))
       (iter_child_nodes n))"
  by pat_completeness auto
termination
  by (relation "measure (\<lambda>(c, n). weight n)") (auto simp: child_weight)

declare spec_edges.simps [simp del]

text \<open>
  Following the specification's words, not the source: the method list of a class holds
  the names of the function definitions in its direct body, one level, where a function
  definition is synchronous or asynchronous, as for the detector.
\<close>

definition spec_method_names :: "node list \<Rightarrow> string list" where
  "spec_method_names body = List.map_filter function_name body"

section \<open>Source units used as examples\<close>

text \<open>A parameter list without parameters, and an expression statement (class
  \<^verbatim>\<open>Expr\<close>) holding one expression.\<close>

definition no_arguments :: node where
  "no_arguments = Arguments [] [] None [] [] None []"

definition Expr :: "node \<Rightarrow> int \<Rightarrow> node" where
  "Expr e lineno = Other [e] (Some lineno)"

text \<open>
  \<^verbatim>\<open>def outer():\<close> \<^verbatim>\<open>    def inner():\<close> \<^verbatim>\<open>        g()\<close> \<^verbatim>\<open>    h()\<close>
  (four lines): a call in a nested function definition, and a call of the outer one.
\<close>

definition nested_tree :: node where
  "nested_tree =
     Module
       [FunctionDef ''outer'' no_arguments
          [FunctionDef ''inner'' no_arguments
             [Expr (Call (Name ''g'' 3) [] [] 3) 3] [] None [] 2,
           Expr (Call (Name ''h'' 4) [] [] 4) 4] [] None [] 1]"

definition nested_source :: string where
  "nested_source =
     ''def outer():'' @ [CHR 0x0A] @ ''    def inner():'' @ [CHR 0x0A] @
     ''        g()'' @ [CHR 0x0A] @ ''    h()''"

text \<open>\<^verbatim>\<open>g()\<close> (one line): a call at module scope.\<close>

definition module_call_source :: string where
  "module_call_source = ''g()''"

definition module_call_tree :: node where
  "module_call_tree = Module [Expr (Call (Name ''g'' 1) [] [] 1) 1]"

text \<open>A parser that returns the given tree, and one that rejects its input.\<close>

definition parses_to :: "node \<Rightarrow> string \<Rightarrow> exn + node" where
  "parses_to tree code = Inr tree"

definition rejects :: "string \<Rightarrow> string \<Rightarrow> exn + node" where
  "rejects msg code = Inl (Exn SyntaxError msg)"

text \<open>
  \<^verbatim>\<open>class Outer:\<close> \<^verbatim>\<open>    def a(self): pass\<close> \<^verbatim>\<open>    def b(self): pass\<close>
  \<^verbatim>\<open>    class Inner:\<close> \<^verbatim>\<open>        def c(self): pass\<close> (five lines): a class with two
  methods and a nested class with one.
\<close>

definition self_argument :: "int \<Rightarrow> node" where
  "self_argument l = Arguments [] [Arg ''self'' None l] None [] [] None []"

definition pass :: "int \<Rightarrow> node" where
  "pass l = Other [] (Some l)"

definition class_tree :: node where
  "class_tree =
     Module
       [ClassDef ''Outer'' [] []
          [FunctionDef ''a'' (self_argument 2) [pass 2] [] None [] 2,
           FunctionDef ''b'' (self_argument 3) [pass 3] [] None [] 3,
           ClassDef ''Inner'' [] []
             [FunctionDef ''c'' (self_argument 5) [pass 5] [] None [] 5] [] [] 4]
          [] [] 1]"

definition class_source :: string where
  "class_source =
     ''class Outer:'' @ [CHR 0x0A] @ ''    def a(self): pass'' @ [CHR 0x0A] @
     ''    def b(self): pass'' @ [CHR 0x0A] @ ''    class Inner:'' @ [CHR 0x0A] @
     ''        def c(self): pass''"

text \<open>
  \<^verbatim>\<open>class Service:\<close> \<^verbatim>\<open>    async def m(self): pass\<close> \<^verbatim>\<open>    def n(self): pass\<close>
  (three lines): a class with an asynchronous and a synchronous method.
\<close>

definition async_class_tree :: node where
  "async_class_tree =
     Module
       [ClassDef ''Service'' [] []
          [AsyncFunctionDef ''m'' (self_argument 2) [pass 2] [] None [] 2,
           FunctionDef ''n'' (self_argument 3) [pass 3] [] None [] 3]
          [] [] 1]"

definition async_class_source :: string where
  "async_class_source =
     ''class Service:'' @ [CHR 0x0A] @ ''    async def m(self): pass'' @ [CHR 0x0A] @
     ''    def n(self): pass''"



text \<open>A file system with one readable file, and \<^verbatim>\<open>ast\<close> modules whose parser returns
  a given tree or rejects its input.\<close>

definition one_file :: "string \<Rightarrow> string \<Rightarrow> string \<Rightarrow> exn + string" where
  "one_file name code path =
     (if path = name then Inr code
      else Inl (Exn OtherException (''[Errno 2] No such file or directory: '' @ path)))"

definition example_ast :: "node \<Rightarrow> ast_module" where
  "example_ast tree =
     \<lparr>ast_parse = parses_to tree, ast_unparse = (\<lambda>n. []), ast_get_docstring = (\<lambda>n. None)\<rparr>"

definition rejecting_ast :: "string \<Rightarrow> ast_module" where
  "rejecting_ast msg =
     \<lparr>ast_parse = rejects msg, ast_unparse = (\<lambda>n. []), ast_get_docstring = (\<lambda>n. None)\<rparr>"

section \<open>The loops of the detector\<close>

lemma find_calls_step_bound:
  assumes "bound f d"
  shows "\<exists>d'. find_calls_step child d = (None, d') \<and> bound f d' \<and>
           relationships d' = relationships d @ call_edges (Some f) child"
  using assms
  by (cases "(child, d)" rule: find_calls_step.cases)
     (auto simp: bound_def append_relationship_def append_function_call_def Let_def
           split: option.splits)

lemma find_calls_loop_bound:
  assumes "bound f d"
  shows "\<exists>d'. for_each find_calls_step ns d = (None, d') \<and> bound f d' \<and>
           relationships d' = relationships d @ concat (map (call_edges (Some f)) ns)"
  using assms
proof (induction ns arbitrary: d)
  case Nil
  then show ?case by simp
next
  case (Cons n ns)
  from find_calls_step_bound [OF Cons.prems, of n]
  obtain d1 where s: "find_calls_step n d = (None, d1)" "bound f d1"
    "relationships d1 = relationships d @ call_edges (Some f) n" by blast
  from Cons.IH [OF s(2)]
  obtain d2 where l: "for_each find_calls_step ns d1 = (None, d2)" "bound f d2"
    "relationships d2 = relationships d1 @ concat (map (call_edges (Some f)) ns)" by blast
  show ?case using s l by simp
qed

lemma analyze_calls_step_edges:
  "\<exists>d'. analyze_calls_step n d = (None, d') \<and>
         relationships d' = relationships d @ function_edges n"
proof (cases "function_name n")
  case None
  then show ?thesis by (simp add: analyze_calls_step_def function_edges_def)
next
  case (Some f)
  let ?d = "d\<lparr>current_function := Some f, function_calls := (function_calls d)(f \<mapsto> [])\<rparr>"
  have "bound f ?d" by (simp add: bound_def)
  from find_calls_loop_bound [OF this, of "walk n"] Some
  show ?thesis by (auto simp: analyze_calls_step_def function_edges_def find_calls_in_node_def)
qed

lemma analyze_calls_loop_edges:
  "\<exists>d'. for_each analyze_calls_step ns d = (None, d') \<and>
         relationships d' = relationships d @ concat (map function_edges ns)"
proof (induction ns arbitrary: d)
  case Nil
  then show ?case by simp
next
  case (Cons n ns)
  from analyze_calls_step_edges [of n d]
  obtain d1 where s: "analyze_calls_step n d = (None, d1)"
    "relationships d1 = relationships d @ function_edges n" by blast
  from Cons.IH [of d1]
  obtain d2 where l: "for_each analyze_calls_step ns d1 = (None, d2)"
    "relationships d2 = relationships d1 @ concat (map function_edges ns)" by blast
  show ?case using s l by simp
qed

lemma analyze_calls_edges:
  "\<exists>d'. analyze_calls tree d = (None, d') \<and>
         relationships d' = relationships d @ tree_edges tree"
  unfolding analyze_calls_def tree_edges_def by (rule analyze_calls_loop_edges)

lemma calculate_stats_edges: "calculate_stats d = edge_stats (relationships d)"
  by (simp add: calculate_stats_def edge_stats_def get_most_called_def get_most_calls_from_def)

lemma detect_relationships_parsed:
  assumes "parse code = Inr tree"
  shows "fst (detect_relationships parse d code) =
    Inr \<lparr>res_relationships = tree_edges tree, res_stats = edge_stats (tree_edges tree)\<rparr>"
proof -
  let ?d = "d\<lparr>relationships := [], function_calls := Map.empty\<rparr>"
  from analyze_calls_edges [of tree ?d]
  obtain d' where a: "analyze_calls tree ?d = (None, d')" "relationships d' = tree_edges tree"
    by auto
  show ?thesis using assms a
    by (simp add: detect_relationships_def calculate_stats_edges)
qed

lemma detect_relationships_failed:
  assumes "parse code = Inl e"
  shows "fst (detect_relationships parse d code) =
    (if is_SyntaxError e then Inr \<lparr>res_relationships = [], res_stats = empty_stats\<rparr> else Inl e)"
  using assms by (simp add: detect_relationships_def)

lemma detect_relationships_any_instance:
  "fst (detect_relationships parse d code) = fst (detect_relationships parse d' code)"
proof (cases "parse code")
  case (Inl e)
  then show ?thesis by (simp add: detect_relationships_failed)
next
  case (Inr tree)
  then show ?thesis by (simp add: detect_relationships_parsed)
qed

section \<open>The nodes a walk visits\<close>

lemma walk_queue_append:
  "set (walk_queue (xs @ ys)) = set (walk_queue xs) \<union> set (walk_queue ys)"
proof (induction "sum_list (map weight (xs @ ys))" arbitrary: xs ys rule: less_induct)
  case less
  show ?case
  proof (cases xs)
    case Nil
    then show ?thesis by simp
  next
    case (Cons n todo)
    let ?ch = "iter_child_nodes n"
    have w: "sum_list (map weight ?ch) < weight n" by (rule iter_child_nodes_size)
    have 1: "set (walk_queue (todo @ (ys @ ?ch))) =
        set (walk_queue todo) \<union> set (walk_queue (ys @ ?ch))"
      using less [of todo "ys @ ?ch"] w Cons by simp
    have 2: "set (walk_queue (ys @ ?ch)) = set (walk_queue ys) \<union> set (walk_queue ?ch)"
      using less [of ys ?ch] w Cons by simp
    have 3: "set (walk_queue (todo @ ?ch)) = set (walk_queue todo) \<union> set (walk_queue ?ch)"
      using less [of todo ?ch] w Cons by simp
    show ?thesis using Cons 1 2 3 by auto
  qed
qed

lemma walk_queue_Cons: "set (walk_queue (n # ns)) = set (walk n) \<union> set (walk_queue ns)"
  using walk_queue_append [of "[n]" ns] by (simp add: walk_def)

lemma walk_queue_Union: "set (walk_queue ns) = (\<Union>n \<in> set ns. set (walk n))"
proof (induction ns)
  case Nil
  then show ?case by simp
next
  case (Cons n ns)
  then show ?case by (simp only: walk_queue_Cons) simp
qed

lemma set_walk: "set (walk n) = insert n (\<Union>c \<in> set (iter_child_nodes n). set (walk c))"
proof -
  have "walk n = n # walk_queue (iter_child_nodes n)" by (simp add: walk_def)
  then have "set (walk n) = insert n (set (walk_queue (iter_child_nodes n)))" by simp
  also have "set (walk_queue (iter_child_nodes n)) =
      (\<Union>c \<in> set (iter_child_nodes n). set (walk c))"
    by (rule walk_queue_Union)
  finally show ?thesis .
qed

lemma walk_trans:
  assumes "m \<in> set (walk n)" "k \<in> set (walk m)"
  shows "k \<in> set (walk n)"
  using assms
proof (induction "weight n" arbitrary: n rule: less_induct)
  case less
  from less.prems(1) consider "m = n"
    | c where "c \<in> set (iter_child_nodes n)" "m \<in> set (walk c)"
    by (subst (asm) set_walk) auto
  then show ?case
  proof cases
    case 1
    then show ?thesis using less.prems by simp
  next
    case 2
    have "weight c < weight n" using 2(1) by (rule child_weight)
    then have "k \<in> set (walk c)" using less.hyps 2(2) less.prems(2) by blast
    then show ?thesis using 2(1) by (subst set_walk) auto
  qed
qed

section \<open>Where the edges come from\<close>

lemma tree_edges_filter:
  "concat (map function_edges ns) =
   concat (map (\<lambda>f. concat (map (call_edges (function_name f)) (walk f)))
     (filter (\<lambda>n. function_name n \<noteq> None) ns))"
  by (induction ns) (auto simp: function_edges_def split: option.splits)

lemma tree_edges_origin:
  assumes "e \<in> set (tree_edges tree)"
  shows "\<exists>f \<in> set (walk tree). \<exists>n \<in> set (walk f).
           function_name f \<noteq> None \<and> caller e = function_name f \<and>
           e \<in> set (call_edges (function_name f) n)"
proof -
  from assms obtain f where f: "f \<in> set (walk tree)" "e \<in> set (function_edges f)"
    by (auto simp: tree_edges_def)
  then obtain name where name: "function_name f = Some name"
    by (cases "function_name f") (auto simp: function_edges_def)
  with f(2) obtain n where n: "n \<in> set (walk f)" "e \<in> set (call_edges (Some name) n)"
    by (auto simp: function_edges_def)
  have "caller e = Some name"
    using n(2) by (cases "(Some name, n)" rule: call_edges.cases) auto
  with f(1) n name show ?thesis
    by (intro bexI [of _ f] bexI [of _ n]) simp_all
qed

lemma tree_edges_no_function:
  assumes "\<forall>n \<in> set (walk tree). function_name n = None"
  shows "tree_edges tree = []"
  using assms by (auto simp: tree_edges_def function_edges_def)

lemma tree_edges_nested_tree:
  "tree_edges nested_tree =
     [\<lparr>caller = Some ''outer'', callee = ''h'', line = 4, edge_type = ''function_call''\<rparr>,
      \<lparr>caller = Some ''outer'', callee = ''g'', line = 3, edge_type = ''function_call''\<rparr>,
      \<lparr>caller = Some ''inner'', callee = ''g'', line = 3, edge_type = ''function_call''\<rparr>]"
  by (simp add: tree_edges_def function_edges_def walk_def nested_tree_def no_arguments_def
      Expr_def)

lemma spec_edges_nested_tree:
  "spec_edges None nested_tree =
     [\<lparr>caller = Some ''inner'', callee = ''g'', line = 3, edge_type = ''function_call''\<rparr>,
      \<lparr>caller = Some ''outer'', callee = ''h'', line = 4, edge_type = ''function_call''\<rparr>]"
  by code_simp

lemma tree_edges_module_call_tree: "tree_edges module_call_tree = []"
  by code_simp

section \<open>Counting and ranking\<close>

lemma first_seen_order_snoc:
  "first_seen_order (ks @ [k]) =
     (if k \<in> set ks then first_seen_order ks else first_seen_order ks @ [k])"
  by (simp add: first_seen_order_def)

lemma set_first_seen_order: "set (first_seen_order ks) = set ks"
  by (simp add: first_seen_order_def)

lemma distinct_first_seen_order: "distinct (first_seen_order ks)"
  by (simp add: first_seen_order_def)

lemma count_key_tabulate:
  assumes "distinct ks"
  shows "count_key k (map (\<lambda>c. (c, g c)) ks) =
     (if k \<in> set ks then map (\<lambda>c. (c, if c = k then g c + 1 else g c)) ks
      else map (\<lambda>c. (c, g c)) ks @ [(k, 1)])"
  using assms by (induction ks) auto

lemma counting_loop:
  "foldl (\<lambda>call_counts k. count_key k call_counts) [] ks =
     map (\<lambda>c. (c, occurrences ks c)) (first_seen_order ks)"
proof (induction ks rule: rev_induct)
  case Nil
  then show ?case by (simp add: first_seen_order_def)
next
  case (snoc k ks)
  have d: "distinct (first_seen_order ks)" by (rule distinct_first_seen_order)
  have z: "k \<notin> set ks \<Longrightarrow> occurrences ks k = 0"
    by (auto simp: occurrences_def filter_empty_conv)
  have "foldl (\<lambda>call_counts k. count_key k call_counts) [] (ks @ [k]) =
      count_key k (map (\<lambda>c. (c, occurrences ks c)) (first_seen_order ks))"
    using snoc by simp
  also have "\<dots> = map (\<lambda>c. (c, occurrences (ks @ [k]) c)) (first_seen_order (ks @ [k]))"
    using z by (auto simp: count_key_tabulate [OF d] set_first_seen_order first_seen_order_snoc
        occurrences_def)
  finally show ?case .
qed

lemma counting_loop_edges:
  "foldl (\<lambda>call_counts r. count_key (f r) call_counts) [] rs =
   foldl (\<lambda>call_counts k. count_key k call_counts) [] (map f rs)"
  by (simp add: foldl_map)

lemma first_seen_less:
  "k \<in> set ks \<Longrightarrow> first_seen ks k < length ks"
  by (induction ks) (auto simp: first_seen_def)

lemma first_seen_snoc_old: "a \<in> set ks \<Longrightarrow> first_seen (ks @ [k]) a = first_seen ks a"
  by (induction ks) (auto simp: first_seen_def)

lemma first_seen_snoc_new: "k \<notin> set ks \<Longrightarrow> first_seen (ks @ [k]) k = length ks"
  unfolding first_seen_def by (subst takeWhile_append2) auto

lemma first_seen_order_sorted:
  "sorted_wrt (\<lambda>a b. first_seen ks a < first_seen ks b) (first_seen_order ks)"
proof (induction ks rule: rev_induct)
  case Nil
  then show ?case by (simp add: first_seen_order_def)
next
  case (snoc k ks)
  have old: "sorted_wrt (\<lambda>a b. first_seen (ks @ [k]) a < first_seen (ks @ [k]) b)
      (first_seen_order ks)"
    using snoc
    by (rule sorted_wrt_mono_rel [rotated])
       (simp add: first_seen_snoc_old set_first_seen_order)
  show ?case
  proof (cases "k \<in> set ks")
    case True
    then show ?thesis using old by (simp add: first_seen_order_snoc)
  next
    case False
    then show ?thesis using old
      by (auto simp: first_seen_order_snoc sorted_wrt_append set_first_seen_order
          first_seen_snoc_old first_seen_snoc_new first_seen_less)
  qed
qed

lemma insort_key_ties:
  assumes "sorted_wrt (\<lambda>a b. f a < f b \<or> (f a = f b \<and> Q a b)) ys"
    and "\<forall>y \<in> set ys. Q x y"
  shows "sorted_wrt (\<lambda>a b. f a < f b \<or> (f a = f b \<and> Q a b)) (insort_key f x ys)"
  using assms
proof (induction ys)
  case Nil
  then show ?case by simp
next
  case (Cons y ys)
  show ?case
  proof (cases "f x \<le> f y")
    case True
    have "\<forall>z \<in> set ys. f y \<le> f z" using Cons.prems(1) by auto
    then have "\<forall>z \<in> set (y # ys). f x < f z \<or> (f x = f z \<and> Q x z)"
      using True Cons.prems(2) by fastforce
    then show ?thesis using True Cons.prems(1) by simp
  next
    case False
    then show ?thesis using Cons by (auto simp: set_insort_key)
  qed
qed

lemma sort_key_ties:
  assumes "sorted_wrt Q xs"
  shows "sorted_wrt (\<lambda>a b. f a < f b \<or> (f a = f b \<and> Q a b)) (sort_key f xs)"
  using assms
proof (induction xs)
  case Nil
  then show ?case by simp
next
  case (Cons x xs)
  then show ?case by (simp add: insort_key_ties)
qed

lemma sorted_reverse_ties:
  assumes "sorted_wrt Q xs"
  shows "sorted_wrt (\<lambda>a b. key b < key a \<or> (key a = key b \<and> Q a b)) (sorted_reverse key xs)"
proof -
  have "sorted_wrt (\<lambda>a b. Q b a) (rev xs)" using assms by (simp add: sorted_wrt_rev)
  then have "sorted_wrt (\<lambda>a b. key a < key b \<or> (key a = key b \<and> Q b a)) (sort_key key (rev xs))"
    by (rule sort_key_ties)
  then have "sorted_wrt (\<lambda>a b. key b < key a \<or> (key b = key a \<and> Q a b))
      (rev (sort_key key (rev xs)))"
    by (simp add: sorted_wrt_rev)
  then show ?thesis
    unfolding sorted_reverse_def by (rule sorted_wrt_mono_rel [rotated]) auto
qed

lemma set_sorted_reverse: "set (sorted_reverse key xs) = set xs"
  by (simp add: sorted_reverse_def)

lemma distinct_sorted_reverse: "distinct (map fst (sorted_reverse key xs)) = distinct (map fst xs)"
  by (simp add: sorted_reverse_def distinct_map)


lemma occurrences_callee: "occurrences (map callee es) c = incoming es c"
  by (simp add: occurrences_def incoming_def filter_map comp_def)

lemma call_counts_closed:
  "foldl (\<lambda>call_counts r. count_key (callee r) call_counts) [] es =
     map (\<lambda>c. (c, incoming es c)) (first_seen_order (map callee es))"
  using counting_loop [of "map callee es"]
  by (simp add: foldl_map occurrences_callee)

lemma call_counts_sorted:
  "sorted_wrt (\<lambda>a b. first_seen ks (fst a) < first_seen ks (fst b))
     (map (\<lambda>c. (c, g c)) (first_seen_order ks))"
  using first_seen_order_sorted [of ks] by (simp add: sorted_wrt_map)

lemma slice_to_5: "slice_to 5 xs = take 5 xs"
  by (simp add: slice_to_def)

lemma most_called_closed:
  "get_most_called 5 d =
     take 5 (sorted_reverse snd
       (map (\<lambda>c. (c, incoming (relationships d) c))
         (first_seen_order (map callee (relationships d)))))"
  by (simp add: get_most_called_def slice_to_5 call_counts_closed)

lemma most_called_example3:
  "get_most_called 5
     (d\<lparr>relationships :=
        [\<lparr>caller = c1, callee = x, line = l1, edge_type = t1\<rparr>,
         \<lparr>caller = c2, callee = x, line = l2, edge_type = t2\<rparr>,
         \<lparr>caller = c3, callee = y, line = l3, edge_type = t3\<rparr>]\<rparr>) =
   (if x = y then [(x, 3)] else [(x, 2), (y, 1)])"
  by (simp add: get_most_called_def slice_to_5 sorted_reverse_def)

lemma most_called_example2:
  "get_most_called 5
     (d\<lparr>relationships :=
        [\<lparr>caller = c1, callee = x, line = l1, edge_type = t1\<rparr>,
         \<lparr>caller = c2, callee = y, line = l2, edge_type = t2\<rparr>]\<rparr>) =
   (if x = y then [(x, 2)] else [(x, 1), (y, 1)])"
  by (simp add: get_most_called_def slice_to_5 sorted_reverse_def)

lemma most_called_full_ranking:
  "\<exists>rest.
     get_most_called 5 d @ rest =
       sorted_reverse snd
         (map (\<lambda>c. (c, incoming (relationships d) c))
           (first_seen_order (map callee (relationships d)))) \<and>
     length (get_most_called 5 d) = min 5 (length (get_most_called 5 d @ rest))"
proof -
  let ?ranked = "sorted_reverse snd
         (map (\<lambda>c. (c, incoming (relationships d) c))
           (first_seen_order (map callee (relationships d))))"
  have mc: "get_most_called 5 d = take 5 ?ranked" by (rule most_called_closed)
  have "take 5 ?ranked @ drop 5 ?ranked = ?ranked" by simp
  moreover have "length (take 5 ?ranked) = min 5 (length ?ranked)" by simp
  ultimately show ?thesis unfolding mc by (intro exI [of _ "drop 5 ?ranked"]) simp
qed

section \<open>The extractor\<close>

lemma map_filter_sync_names:
  "List.map_filter FunctionDef_name body =
     spec_method_names (filter (\<lambda>n. \<not> is_AsyncFunctionDef n) body)"
proof (induction body)
  case Nil
  then show ?case by (simp add: spec_method_names_def List.map_filter_simps)
next
  case (Cons n body)
  then show ?case
    by (cases n) (simp_all add: spec_method_names_def List.map_filter_simps)
qed

lemma walk_tree_step_methods:
  "map methods (classes (walk_tree_step lib ents n)) =
     map methods (classes ents) @
       (case ClassDef_body n of
          Some body \<Rightarrow> [spec_method_names (filter (\<lambda>n. \<not> is_AsyncFunctionDef n) body)]
        | None \<Rightarrow> [])"
  by (cases n) (simp_all add: Let_def map_filter_sync_names)

lemma walk_tree_loop_methods:
  "map methods (classes (foldl (walk_tree_step lib) ents ns)) =
     map methods (classes ents) @
       map (\<lambda>body. spec_method_names (filter (\<lambda>n. \<not> is_AsyncFunctionDef n) body))
         (List.map_filter ClassDef_body ns)"
proof (induction ns arbitrary: ents)
  case Nil
  then show ?case by (simp add: List.map_filter_simps)
next
  case (Cons n ns)
  show ?case
    by (cases "ClassDef_body n")
       (simp_all add: Cons.IH walk_tree_step_methods List.map_filter_simps)
qed

lemma extract_from_file_parsed:
  assumes "read_file path = Inr code" "ast_parse lib code = Inr tree"
  shows "extract_from_file lib read_file self path =
    (let ents = walk_tree lib tree
           \<lparr>classes = [], functions = [], imports = [], decorators = [],
            file_path = Some path, total_lines = Some (int (length (split line_feed code)))\<rparr>
     in (Inr ents, \<lparr>entities = ents, current_file = path\<rparr>, []))"
  using assms by (simp add: extract_from_file_def Let_def)

lemma extract_from_file_syntax_error:
  assumes "read_file path = Inr code" "ast_parse lib code = Inl e" "is_SyntaxError e"
  shows "extract_from_file lib read_file self path =
    (let ents = \<lparr>classes = [], functions = [], imports = [], decorators = [],
            file_path = Some path, total_lines = Some (int (length (split line_feed code)))\<rparr>
     in (Inr ents, \<lparr>entities = ents, current_file = path\<rparr>,
         [''Syntax error in '' @ path @ '': '' @ str_exn e]))"
  using assms by (simp add: extract_from_file_def Let_def)

lemma extract_from_file_unreadable:
  assumes "read_file path = Inl e"
  shows "extract_from_file lib read_file self path =
    (Inr (entities self), self, [''Error reading file '' @ path @ '': '' @ str_exn e])"
  using assms by (simp add: extract_from_file_def)

lemma extract_from_file_returns_entities:
  assumes "extract_from_file lib read_file self path = (Inr r, self', out)"
  shows "entities self' = r"
  using assms
  by (auto simp: extract_from_file_def Let_def split: sum.splits if_splits)

lemma extract_class_tree:
  "map (\<lambda>c. (cls_name c, methods c))
     (classes (walk_tree lib class_tree
        \<lparr>classes = [], functions = [], imports = [], decorators = [],
         file_path = fp, total_lines = nl\<rparr>)) =
   [(''Outer'', [''a'', ''b'']), (''Inner'', [''c''])]"
  by (simp add: walk_tree_def walk_def class_tree_def self_argument_def pass_def Let_def
      List.map_filter_simps)

lemma call_edges_lineno:
  assumes "e \<in> set (call_edges c n)"
  shows "node_lineno n = Some (line e)"
  using assms by (cases "(c, n)" rule: call_edges.cases) auto

lemma tree_edges_lines:
  assumes "e \<in> set (tree_edges tree)"
  shows "\<exists>n \<in> set (walk tree). node_lineno n = Some (line e)"
proof -
  from tree_edges_origin [OF assms]
  obtain f n where f: "f \<in> set (walk tree)" and n: "n \<in> set (walk f)"
    and e: "e \<in> set (call_edges (function_name f) n)" by blast
  have "n \<in> set (walk tree)" using f n by (rule walk_trans)
  then show ?thesis using call_edges_lineno [OF e] by blast
qed



lemma extract_async_class_tree:
  "map methods
     (classes (walk_tree lib async_class_tree
        \<lparr>classes = [], functions = [], imports = [], decorators = [],
         file_path = fp, total_lines = nl\<rparr>)) = [[''n'']]"
  by (simp add: walk_tree_def walk_def async_class_tree_def self_argument_def pass_def Let_def
      List.map_filter_simps)





section \<open>The claims\<close>

text \<open>
  Claim C1, as stated: every call node gives exactly one edge, the edges stand in the
  order of one depth-first pre-order traversal of the whole tree, and a call inside a
  nested function definition is emitted once, under its innermost enclosing function.
  It fails on the nested source unit: the detector returns the call of \<^verbatim>\<open>h\<close> first,
  and the call of \<^verbatim>\<open>g\<close> twice, under \<^verbatim>\<open>outer\<close> and under \<^verbatim>\<open>inner\<close>, where the
  traversal of the specification returns \<^verbatim>\<open>g\<close> once under \<^verbatim>\<open>inner\<close>, then \<^verbatim>\<open>h\<close>.
\<close>

theorem nested_call_emitted_twice:
  "map_sum id res_relationships
     (fst (detect_relationships (parses_to nested_tree) new_detector nested_source)) =
   Inr [\<lparr>caller = Some ''outer'', callee = ''h'', line = 4, edge_type = ''function_call''\<rparr>,
        \<lparr>caller = Some ''outer'', callee = ''g'', line = 3, edge_type = ''function_call''\<rparr>,
        \<lparr>caller = Some ''inner'', callee = ''g'', line = 3, edge_type = ''function_call''\<rparr>] \<and>
   spec_edges None nested_tree =
     [\<lparr>caller = Some ''inner'', callee = ''g'', line = 3, edge_type = ''function_call''\<rparr>,
      \<lparr>caller = Some ''outer'', callee = ''h'', line = 4, edge_type = ''function_call''\<rparr>] \<and>
   map_sum id res_relationships
     (fst (detect_relationships (parses_to nested_tree) new_detector nested_source)) \<noteq>
   Inr (spec_edges None nested_tree)"
  by (simp add: detect_relationships_parsed [of "parses_to nested_tree" _ nested_tree]
      parses_to_def tree_edges_nested_tree spec_edges_nested_tree)

text \<open>
  Claim C1, amended: for every source unit that parses, \<^verbatim>\<open>detect_relationships\<close>
  returns, for each function definition (\<^verbatim>\<open>def\<close> or \<^verbatim>\<open>async def\<close>) in the
  breadth-first order of \<^verbatim>\<open>ast.walk\<close> over the whole tree, the edges of the call nodes
  of that definition's subtree whose target is a name or an attribute, in the
  breadth-first order of the walk of that subtree, each under that definition's name.
  A call node therefore gives one edge for every function definition enclosing it.
\<close>

theorem detected_edges_per_function:
  assumes "parse code = Inr tree"
  shows "\<exists>r. fst (detect_relationships parse d code) = Inr r \<and>
    res_relationships r =
      concat (map (\<lambda>f. concat (map (call_edges (function_name f)) (walk f)))
        (filter (\<lambda>n. function_name n \<noteq> None) (walk tree)))"
  using assms detect_relationships_parsed [of parse code tree d]
  by (simp add: tree_edges_def tree_edges_filter)

theorem detected_edges_per_function_witness:
  "parses_to nested_tree nested_source = Inr nested_tree \<and>
   (\<exists>r. fst (detect_relationships (parses_to nested_tree) new_detector nested_source) = Inr r \<and>
      res_relationships r =
        [\<lparr>caller = Some ''outer'', callee = ''h'', line = 4, edge_type = ''function_call''\<rparr>,
         \<lparr>caller = Some ''outer'', callee = ''g'', line = 3, edge_type = ''function_call''\<rparr>,
         \<lparr>caller = Some ''inner'', callee = ''g'', line = 3, edge_type = ''function_call''\<rparr>])"
proof -
  have p: "parses_to nested_tree nested_source = Inr nested_tree"
    by (simp add: parses_to_def)
  have e: "concat (map (\<lambda>f. concat (map (call_edges (function_name f)) (walk f)))
        (filter (\<lambda>n. function_name n \<noteq> None) (walk nested_tree))) =
      tree_edges nested_tree"
    by (simp add: tree_edges_def tree_edges_filter)
  have "\<exists>r. fst (detect_relationships (parses_to nested_tree) new_detector nested_source) =
        Inr r \<and>
      res_relationships r =
        concat (map (\<lambda>f. concat (map (call_edges (function_name f)) (walk f)))
          (filter (\<lambda>n. function_name n \<noteq> None) (walk nested_tree)))"
    using p by (rule detected_edges_per_function)
  then have "\<exists>r. fst (detect_relationships (parses_to nested_tree) new_detector
        nested_source) = Inr r \<and> res_relationships r = tree_edges nested_tree"
    by (simp only: e)
  then show ?thesis using p by (simp add: tree_edges_nested_tree)
qed

text \<open>
  Claim C2, as stated: a call at module scope gives an edge whose caller is absent. It
  fails on the source unit \<^verbatim>\<open>g()\<close>: the detector returns no edge at all (and the
  statistics of an empty edge list).
\<close>

theorem module_scope_call_not_recorded:
  "fst (detect_relationships (parses_to module_call_tree) new_detector module_call_source) =
   Inr \<lparr>res_relationships = [],
        res_stats = \<lparr>total_calls = Some 0, unique_callers = Some 0, unique_callees = Some 0,
          most_called = None, most_calls_from = None\<rparr>\<rparr>"
  by (simp add: detect_relationships_parsed [of _ _ module_call_tree] parses_to_def
      tree_edges_module_call_tree edge_stats_def calculate_stats_def new_detector_def)

text \<open>
  Claim C2, amended: for every source unit that parses, \<^verbatim>\<open>detect_relationships\<close>
  returns without a fault; every edge it returns comes from a call node inside the
  subtree of a function definition and has that definition's name as its caller, never
  an absent caller; a call at module scope, outside every function definition, gives no
  edge, so a source unit without function definitions has an empty edge list.
\<close>

theorem edges_only_inside_functions:
  assumes "parse code = Inr tree"
  shows "\<exists>r. fst (detect_relationships parse d code) = Inr r \<and>
    (\<forall>e \<in> set (res_relationships r).
       \<exists>f \<in> set (walk tree). \<exists>n \<in> set (walk f).
         function_name f \<noteq> None \<and> caller e = function_name f \<and>
         e \<in> set (call_edges (function_name f) n)) \<and>
    ((\<forall>n \<in> set (walk tree). function_name n = None) \<longrightarrow> res_relationships r = [])"
  using assms detect_relationships_parsed [of parse code tree d]
    tree_edges_origin [of _ tree] tree_edges_no_function [of tree]
  by auto

theorem edges_only_inside_functions_witness:
  "parses_to module_call_tree module_call_source = Inr module_call_tree \<and>
   (\<exists>r. fst (detect_relationships (parses_to module_call_tree) new_detector
            module_call_source) = Inr r \<and>
      res_relationships r = [])"
proof -
  have p: "parses_to module_call_tree module_call_source = Inr module_call_tree"
    by (simp add: parses_to_def)
  have nf: "\<forall>n \<in> set (walk module_call_tree). function_name n = None"
    by (simp add: walk_def module_call_tree_def Expr_def)
  from edges_only_inside_functions [of "parses_to module_call_tree" module_call_source
      module_call_tree new_detector] p nf
  show ?thesis by blast
qed

text \<open>
  Claim C3, as stated: on a malformed source unit the statistics hold the three counts,
  each zero. It fails: on a syntax error the statistics dictionary is empty, the count
  \<^verbatim>\<open>total_calls\<close> (like the others) is absent.
\<close>

theorem syntax_error_stats_without_counts:
  "fst (detect_relationships (rejects ''invalid syntax (<unknown>, line 1)'') new_detector
     ''def f(:'') =
   Inr \<lparr>res_relationships = [],
        res_stats = \<lparr>total_calls = None, unique_callers = None, unique_callees = None,
          most_called = None, most_calls_from = None\<rparr>\<rparr>"
  by (simp add: detect_relationships_failed
        [of _ _ "Exn SyntaxError ''invalid syntax (<unknown>, line 1)''"]
      rejects_def empty_stats_def)

text \<open>
  Claim C3, amended: for every source unit on which the parser raises
  \<^verbatim>\<open>SyntaxError\<close>, \<^verbatim>\<open>detect_relationships\<close> raises nothing and returns an empty edge
  list with an empty statistics dictionary: no count is present, and a reader that
  takes a count with the default 0, as the callers do, reads 0 for each.
\<close>

theorem syntax_error_gives_empty_stats:
  assumes "parse code = Inl e" "is_SyntaxError e"
  shows "\<exists>r. fst (detect_relationships parse d code) = Inr r \<and>
    res_relationships r = [] \<and> res_stats r = empty_stats \<and>
    total_calls (res_stats r) = None \<and> unique_callers (res_stats r) = None \<and>
    unique_callees (res_stats r) = None \<and>
    get_default (total_calls (res_stats r)) 0 = 0 \<and>
    get_default (unique_callers (res_stats r)) 0 = 0 \<and>
    get_default (unique_callees (res_stats r)) 0 = 0"
  using assms detect_relationships_failed [of parse code e d]
  by (simp add: empty_stats_def get_default_def)

theorem syntax_error_gives_empty_stats_witness:
  "rejects ''invalid syntax'' ''def f(:'' = Inl (Exn SyntaxError ''invalid syntax'') \<and>
   is_SyntaxError (Exn SyntaxError ''invalid syntax'') \<and>
   (\<exists>r. fst (detect_relationships (rejects ''invalid syntax'') new_detector ''def f(:'') = Inr r \<and>
      res_relationships r = [] \<and> res_stats r = empty_stats \<and>
      get_default (total_calls (res_stats r)) 0 = 0)"
proof -
  have p: "rejects ''invalid syntax'' ''def f(:'' = Inl (Exn SyntaxError ''invalid syntax'')"
    by (simp add: rejects_def)
  have s: "is_SyntaxError (Exn SyntaxError ''invalid syntax'')" by simp
  from syntax_error_gives_empty_stats
      [of "rejects ''invalid syntax''" "''def f(:''" "Exn SyntaxError ''invalid syntax''"
        new_detector] p s
  show ?thesis by blast
qed

text \<open>
  Claim C4. For every edge list, \<^verbatim>\<open>most_called\<close> is the beginning of the ranking of
  all callees: the ranking lists every callee of the edge list once, with the number of
  edges that name it, in descending order of the count, entries of equal count in the
  order in which their callees are first seen in the edge sequence; \<^verbatim>\<open>most_called\<close>
  is its first 5 entries, or all of them when there are fewer than 5 callees. It is the
  statistic \<^verbatim>\<open>most_called\<close> whenever there is an edge. For the edges
  \<open>[(_, x), (_, x), (_, y)]\<close> it is \<open>[(x, 2), (y, 1)]\<close>, and for \<open>[(_, x), (_, y)]\<close>,
  a tie, \<open>[(x, 1), (y, 1)]\<close> (\<open>x\<close> and \<open>y\<close> different).
\<close>

theorem most_called_ranking:
  "length (get_most_called 5 d) \<le> 5 \<and>
   distinct (map fst (get_most_called 5 d)) \<and>
   list_all (\<lambda>(c, n). c \<in> callee ` set (relationships d) \<and> n = incoming (relationships d) c)
     (get_most_called 5 d) \<and>
   sorted_wrt (ranks_before (map callee (relationships d))) (get_most_called 5 d) \<and>
   (\<exists>rest.
      sorted_wrt (ranks_before (map callee (relationships d))) (get_most_called 5 d @ rest) \<and>
      distinct (map fst (get_most_called 5 d @ rest)) \<and>
      set (map fst (get_most_called 5 d @ rest)) = callee ` set (relationships d) \<and>
      list_all (\<lambda>(c, n). n = incoming (relationships d) c) (get_most_called 5 d @ rest) \<and>
      length (get_most_called 5 d) = min 5 (length (get_most_called 5 d @ rest)) \<and>
      length (get_most_called 5 d @ rest) = card (callee ` set (relationships d))) \<and>
   most_called (calculate_stats d) =
     (if relationships d = [] then None else Some (get_most_called 5 d)) \<and>
   get_most_called 5
     (d\<lparr>relationships :=
        [\<lparr>caller = c1, callee = x, line = l1, edge_type = t1\<rparr>,
         \<lparr>caller = c2, callee = x, line = l2, edge_type = t2\<rparr>,
         \<lparr>caller = c3, callee = y, line = l3, edge_type = t3\<rparr>]\<rparr>) =
     (if x = y then [(x, 3)] else [(x, 2), (y, 1)]) \<and>
   get_most_called 5
     (d\<lparr>relationships :=
        [\<lparr>caller = c1, callee = x, line = l1, edge_type = t1\<rparr>,
         \<lparr>caller = c2, callee = y, line = l2, edge_type = t2\<rparr>]\<rparr>) =
     (if x = y then [(x, 2)] else [(x, 1), (y, 1)])"
proof -
  let ?es = "relationships d"
  let ?ks = "map callee ?es"
  let ?counts = "map (\<lambda>c. (c, incoming ?es c)) (first_seen_order ?ks)"
  let ?ranked = "sorted_reverse snd ?counts"
  have mc: "get_most_called 5 d = take 5 ?ranked" by (rule most_called_closed)
  have len: "length (get_most_called 5 d) \<le> 5" by (simp add: mc)
  have "distinct (map fst ?counts)"
    by (simp add: comp_def distinct_first_seen_order)
  then have "distinct (map fst ?ranked)" by (simp add: distinct_sorted_reverse)
  then have dist: "distinct (map fst (get_most_called 5 d))"
    by (simp add: mc take_map [symmetric])
  have "set (take 5 ?ranked) \<subseteq> set ?counts"
    using set_take_subset [of 5 ?ranked] by (simp add: set_sorted_reverse)
  then have counts: "list_all
      (\<lambda>(c, n). c \<in> callee ` set ?es \<and> n = incoming ?es c) (get_most_called 5 d)"
    by (auto simp: mc list_all_iff set_first_seen_order)
  have "sorted_wrt (ranks_before ?ks) ?ranked"
    unfolding ranks_before_def
    by (rule sorted_reverse_ties) (rule call_counts_sorted)
  then have ranked: "sorted_wrt (ranks_before ?ks) (get_most_called 5 d)"
    by (simp add: mc)
  have st: "most_called (calculate_stats d) =
      (if ?es = [] then None else Some (get_most_called 5 d))"
    by (simp add: calculate_stats_def)
  from most_called_full_ranking [of d] obtain rest where
    full: "get_most_called 5 d @ rest = ?ranked"
    and top: "length (get_most_called 5 d) = min 5 (length (get_most_called 5 d @ rest))"
    by blast
  have all_ranked: "sorted_wrt (ranks_before ?ks) ?ranked"
    unfolding ranks_before_def
    by (rule sorted_reverse_ties) (rule call_counts_sorted)
  have all_dist: "distinct (map fst ?ranked)"
    using \<open>distinct (map fst ?counts)\<close> by (simp add: distinct_sorted_reverse)
  have all_keys: "set (map fst ?ranked) = callee ` set ?es"
    by (simp add: set_sorted_reverse comp_def set_first_seen_order image_image)
  have all_counts: "list_all (\<lambda>(c, n). n = incoming ?es c) ?ranked"
    by (auto simp: list_all_iff set_sorted_reverse)
  have "length ?ranked = length (map fst ?ranked)" by simp
  also have "\<dots> = card (set (map fst ?ranked))"
    using all_dist by (simp only: distinct_card)
  finally have all_card: "length ?ranked = card (callee ` set ?es)" by (simp only: all_keys)
  have whole: "\<exists>rest.
      sorted_wrt (ranks_before ?ks) (get_most_called 5 d @ rest) \<and>
      distinct (map fst (get_most_called 5 d @ rest)) \<and>
      set (map fst (get_most_called 5 d @ rest)) = callee ` set ?es \<and>
      list_all (\<lambda>(c, n). n = incoming ?es c) (get_most_called 5 d @ rest) \<and>
      length (get_most_called 5 d) = min 5 (length (get_most_called 5 d @ rest)) \<and>
      length (get_most_called 5 d @ rest) = card (callee ` set ?es)"
    using all_ranked all_dist all_keys all_counts top all_card
    by (intro exI [of _ rest]) (simp only: full simp_thms)
  show ?thesis
    using len dist counts ranked st whole
    by (simp add: most_called_example3 most_called_example2)
qed

text \<open>
  Claim C5, as stated: the method list holds exactly the names of the function
  definitions in the direct body of the class. It fails on the class \<^verbatim>\<open>Service\<close>:
  its direct body holds the function definitions \<^verbatim>\<open>m\<close> (asynchronous) and \<^verbatim>\<open>n\<close>,
  and the extractor lists \<^verbatim>\<open>n\<close> only.
\<close>

theorem async_method_not_listed:
  "(\<exists>ents. fst (extract_from_file (example_ast async_class_tree)
        (one_file ''service.py'' async_class_source) new_extractor ''service.py'') = Inr ents \<and>
      map methods (classes ents) = [[''n'']]) \<and>
   List.map_filter ClassDef_body (walk async_class_tree) =
     [[AsyncFunctionDef ''m'' (self_argument 2) [pass 2] [] None [] 2,
       FunctionDef ''n'' (self_argument 3) [pass 3] [] None [] 3]] \<and>
   spec_method_names
     [AsyncFunctionDef ''m'' (self_argument 2) [pass 2] [] None [] 2,
      FunctionDef ''n'' (self_argument 3) [pass 3] [] None [] 3] = [''m'', ''n'']"
proof -
  have r: "one_file ''service.py'' async_class_source ''service.py'' = Inr async_class_source"
    by (simp add: one_file_def)
  have p: "ast_parse (example_ast async_class_tree) async_class_source = Inr async_class_tree"
    by (simp add: example_ast_def parses_to_def)
  have b: "List.map_filter ClassDef_body (walk async_class_tree) =
     [[AsyncFunctionDef ''m'' (self_argument 2) [pass 2] [] None [] 2,
       FunctionDef ''n'' (self_argument 3) [pass 3] [] None [] 3]]"
    by (simp add: walk_def async_class_tree_def self_argument_def pass_def
        List.map_filter_simps)
  show ?thesis
    by (simp add: extract_from_file_parsed
        [where read_file = "one_file ''service.py'' async_class_source"
          and path = "''service.py''" and code = async_class_source
          and lib = "example_ast async_class_tree" and tree = async_class_tree, OF r p]
        Let_def extract_async_class_tree b spec_method_names_def List.map_filter_simps)
qed

text \<open>
  Claim C5, amended: for every class definition, the method list of its entry holds
  exactly the names of the function definitions standing in the direct body of the class
  (one level, in body order) that are not asynchronous; an \<^verbatim>\<open>async def\<close> is not
  listed, and what a nested class declares is not among them. The class entries of a
  tree are those of its class definitions in the order of the walk. The class
  \<^verbatim>\<open>Outer\<close> with the methods \<^verbatim>\<open>a\<close>, \<^verbatim>\<open>b\<close> and the nested class \<^verbatim>\<open>Inner\<close>
  declaring \<^verbatim>\<open>c\<close> has the methods \<open>[a, b]\<close>.
\<close>

theorem class_methods_direct_sync_defs:
  "map methods (classes (walk_tree lib tree ents)) =
     map methods (classes ents) @
       map (\<lambda>body. spec_method_names (filter (\<lambda>n. \<not> is_AsyncFunctionDef n) body))
         (List.map_filter ClassDef_body (walk tree)) \<and>
   (\<exists>ents'. fst (extract_from_file (example_ast class_tree) (one_file ''outer.py'' class_source)
        self ''outer.py'') = Inr ents' \<and>
      map (\<lambda>c. (cls_name c, methods c)) (classes ents') =
        [(''Outer'', [''a'', ''b'']), (''Inner'', [''c''])])"
proof -
  have r: "one_file ''outer.py'' class_source ''outer.py'' = Inr class_source"
    by (simp add: one_file_def)
  have p: "ast_parse (example_ast class_tree) class_source = Inr class_tree"
    by (simp add: example_ast_def parses_to_def)
  show ?thesis
    by (simp add: walk_tree_def walk_tree_loop_methods
        extract_from_file_parsed [where read_file = "one_file ''outer.py'' class_source"
          and path = "''outer.py''" and code = class_source
          and lib = "example_ast class_tree" and tree = class_tree, OF r p]
        extract_class_tree [unfolded walk_tree_def] Let_def)
qed

text \<open>
  Claim C6. For every source unit that can be read and on which the parser raises
  \<^verbatim>\<open>SyntaxError\<close>, \<^verbatim>\<open>extract_from_file\<close> raises nothing: it returns the dictionary
  it has just reset, with the classes, functions and imports empty, and prints one line
  that carries the text of the exception (which holds the position when the parser gives
  one). The parser's answer is used once.
\<close>

theorem extract_survives_syntax_error:
  assumes "read_file path = Inr code" "ast_parse lib code = Inl e" "is_SyntaxError e"
  shows "\<exists>ents self'. extract_from_file lib read_file self path =
      (Inr ents, self', [''Syntax error in '' @ path @ '': '' @ str_exn e]) \<and>
    classes ents = [] \<and> functions ents = [] \<and> imports ents = [] \<and> decorators ents = [] \<and>
    file_path ents = Some path \<and>
    total_lines ents = Some (int (length (split line_feed code))) \<and>
    entities self' = ents"
  using assms extract_from_file_syntax_error
      [where read_file = read_file and path = path and code = code and lib = lib and e = e
        and self = self]
  by (simp add: Let_def)

theorem extract_survives_syntax_error_witness:
  "one_file ''bad.py'' ''def f(:'' ''bad.py'' = Inr ''def f(:'' \<and>
   ast_parse (rejecting_ast ''invalid syntax (<unknown>, line 1)'') ''def f(:'' =
     Inl (Exn SyntaxError ''invalid syntax (<unknown>, line 1)'') \<and>
   is_SyntaxError (Exn SyntaxError ''invalid syntax (<unknown>, line 1)'') \<and>
   (\<exists>ents self'.
      extract_from_file (rejecting_ast ''invalid syntax (<unknown>, line 1)'')
        (one_file ''bad.py'' ''def f(:'') new_extractor ''bad.py'' =
        (Inr ents, self',
         [''Syntax error in bad.py: invalid syntax (<unknown>, line 1)'']) \<and>
      classes ents = [] \<and> functions ents = [] \<and> imports ents = [] \<and>
      total_lines ents = Some 1)"
proof -
  have r: "one_file ''bad.py'' ''def f(:'' ''bad.py'' = Inr ''def f(:''"
    by (simp add: one_file_def)
  have p: "ast_parse (rejecting_ast ''invalid syntax (<unknown>, line 1)'') ''def f(:'' =
      Inl (Exn SyntaxError ''invalid syntax (<unknown>, line 1)'')"
    by (simp add: rejecting_ast_def rejects_def)
  have s: "is_SyntaxError (Exn SyntaxError ''invalid syntax (<unknown>, line 1)'')" by simp
  have n: "int (length (split line_feed ''def f(:'')) = 1" by (simp add: line_feed_def)
  from extract_survives_syntax_error
    [where read_file = "one_file ''bad.py'' ''def f(:''" and path = "''bad.py''"
      and code = "''def f(:''" and lib = "rejecting_ast ''invalid syntax (<unknown>, line 1)''"
      and e = "Exn SyntaxError ''invalid syntax (<unknown>, line 1)''"
      and self = new_extractor, OF r p s]
  show ?thesis using r p s n by auto
qed

text \<open>
  Claim C7. For every source text that can be read and parses, \<^verbatim>\<open>extract_from_file\<close>
  and \<^verbatim>\<open>detect_relationships\<close> return the same result structure (the same entities,
  edges and statistics, in the same order) and print the same, whatever state the
  instance is in when called: two calls on identical text give identical results.
\<close>

theorem same_text_same_result:
  assumes "read_file path = Inr code" "ast_parse lib code = Inr tree"
  shows "(\<exists>ents. fst (extract_from_file lib read_file x path) = Inr ents \<and>
            fst (extract_from_file lib read_file x' path) = Inr ents) \<and>
         snd (snd (extract_from_file lib read_file x path)) =
           snd (snd (extract_from_file lib read_file x' path)) \<and>
         (\<exists>r. fst (detect_relationships (ast_parse lib) d code) = Inr r \<and>
            fst (detect_relationships (ast_parse lib) d' code) = Inr r)"
  using assms
    extract_from_file_parsed [where read_file = read_file and path = path and code = code
      and lib = lib and tree = tree and self = x]
    extract_from_file_parsed [where read_file = read_file and path = path and code = code
      and lib = lib and tree = tree and self = x']
    detect_relationships_parsed [where parse = "ast_parse lib" and code = code and tree = tree
      and d = d]
    detect_relationships_parsed [where parse = "ast_parse lib" and code = code and tree = tree
      and d = d']
  by (simp add: Let_def)

theorem same_text_same_result_witness:
  "one_file ''nested.py'' nested_source ''nested.py'' = Inr nested_source \<and>
   ast_parse (example_ast nested_tree) nested_source = Inr nested_tree \<and>
   (\<exists>ents.
      fst (extract_from_file (example_ast nested_tree) (one_file ''nested.py'' nested_source)
        new_extractor ''nested.py'') = Inr ents \<and>
      fst (extract_from_file (example_ast nested_tree) (one_file ''nested.py'' nested_source)
        (fst (snd (extract_from_file (example_ast nested_tree)
          (one_file ''nested.py'' nested_source) new_extractor ''nested.py''))) ''nested.py'') =
        Inr ents) \<and>
   (\<exists>r.
      fst (detect_relationships (ast_parse (example_ast nested_tree)) new_detector
        nested_source) = Inr r \<and>
      fst (detect_relationships (ast_parse (example_ast nested_tree))
        (snd (detect_relationships (ast_parse (example_ast nested_tree)) new_detector
          nested_source)) nested_source) = Inr r)"
proof -
  have r: "one_file ''nested.py'' nested_source ''nested.py'' = Inr nested_source"
    by (simp add: one_file_def)
  have p: "ast_parse (example_ast nested_tree) nested_source = Inr nested_tree"
    by (simp add: example_ast_def parses_to_def)
  from same_text_same_result
    [where read_file = "one_file ''nested.py'' nested_source" and path = "''nested.py''"
      and code = nested_source and lib = "example_ast nested_tree" and tree = nested_tree
      and x = new_extractor
      and x' = "fst (snd (extract_from_file (example_ast nested_tree)
          (one_file ''nested.py'' nested_source) new_extractor ''nested.py''))"
      and d = new_detector
      and d' = "snd (detect_relationships (ast_parse (example_ast nested_tree)) new_detector
          nested_source)", OF r p]
  show ?thesis using r p by blast
qed

text \<open>
  Claim C8. For every pair of source units A and B, calling \<^verbatim>\<open>detect_relationships\<close>
  on one detector instance first with A and then with B returns, on the second call,
  exactly what a fresh detector instance returns for B alone (the same edges, the same
  statistics, or the same exception): nothing of A and no state left by the first call
  reaches the second result.
\<close>

theorem detector_reuse_is_fresh:
  "fst (detect_relationships parse (snd (detect_relationships parse d code_A)) code_B) =
   fst (detect_relationships parse new_detector code_B)"
  by (rule detect_relationships_any_instance)




text \<open>
  Claim C10. When the file cannot be read (the read raises), \<^verbatim>\<open>extract_from_file\<close>
  prints one line and returns the entities the instance holds at that moment, leaving
  the instance as it is; so, called after an earlier call on the same instance returned
  the result of another file, it returns that earlier file's complete result, not an
  empty result for the file that failed.
\<close>

theorem read_failure_returns_previous_entities:
  assumes "read_file path = Inl e"
  shows "extract_from_file lib read_file self path =
      (Inr (entities self), self, [''Error reading file '' @ path @ '': '' @ str_exn e]) \<and>
    (extract_from_file lib read_file x previous = (Inr r, self, out) \<longrightarrow>
       fst (extract_from_file lib read_file self path) = Inr r)"
  using assms
    extract_from_file_unreadable [where read_file = read_file and path = path and e = e
      and lib = lib and self = self]
    extract_from_file_returns_entities [of lib read_file x previous r self out]
  by simp

theorem read_failure_returns_previous_entities_witness:
  "one_file ''outer.py'' class_source ''missing.py'' =
     Inl (Exn OtherException ''[Errno 2] No such file or directory: missing.py'') \<and>
   (\<exists>r self out.
      extract_from_file (example_ast class_tree) (one_file ''outer.py'' class_source)
        new_extractor ''outer.py'' = (Inr r, self, out) \<and>
      map cls_name (classes r) = [''Outer'', ''Inner''] \<and>
      file_path r = Some ''outer.py'' \<and>
      fst (extract_from_file (example_ast class_tree) (one_file ''outer.py'' class_source)
        self ''missing.py'') = Inr r)"
proof -
  let ?fs = "one_file ''outer.py'' class_source"
  let ?lib = "example_ast class_tree"
  have m: "?fs ''missing.py'' =
      Inl (Exn OtherException ''[Errno 2] No such file or directory: missing.py'')"
    by (simp add: one_file_def)
  have r: "?fs ''outer.py'' = Inr class_source" by (simp add: one_file_def)
  have p: "ast_parse ?lib class_source = Inr class_tree"
    by (simp add: example_ast_def parses_to_def)
  obtain res self out where
    first: "extract_from_file ?lib ?fs new_extractor ''outer.py'' = (Inr res, self, out)"
    and res: "res = walk_tree ?lib class_tree
        \<lparr>classes = [], functions = [], imports = [], decorators = [],
         file_path = Some ''outer.py'',
         total_lines = Some (int (length (split line_feed class_source)))\<rparr>"
    using extract_from_file_parsed
      [where read_file = ?fs and path = "''outer.py''" and code = class_source
        and lib = ?lib and tree = class_tree and self = new_extractor, OF r p]
    by (simp add: Let_def)
  have "map cls_name (classes res) =
      map fst (map (\<lambda>c. (cls_name c, methods c)) (classes res))"
    by (simp add: comp_def)
  also have "\<dots> = map fst [(''Outer'', [''a'', ''b'']), (''Inner'', [''c''])]"
    unfolding res by (simp only: extract_class_tree)
  finally have names: "map cls_name (classes res) = [''Outer'', ''Inner'']" by simp
  have fp: "file_path res = Some ''outer.py''"
  proof -
    have "file_path (walk_tree_step l ents n) = file_path ents" for l ents n
      by (cases n) (simp_all add: Let_def)
    then have "file_path (foldl (walk_tree_step l) ents ns) = file_path ents" for l ents ns
      by (induction ns arbitrary: ents) simp_all
    then show ?thesis unfolding res by (simp add: walk_tree_def)
  qed
  from read_failure_returns_previous_entities
    [where read_file = ?fs and path = "''missing.py''" and lib = ?lib and self = self
      and x = new_extractor and previous = "''outer.py''" and r = res and out = out, OF m]
    first
  have second: "fst (extract_from_file ?lib ?fs self ''missing.py'') = Inr res" by blast
  show ?thesis
  proof (intro conjI exI)
    show "?fs ''missing.py'' =
        Inl (Exn OtherException ''[Errno 2] No such file or directory: missing.py'')"
      by (rule m)
    show "extract_from_file ?lib ?fs new_extractor ''outer.py'' = (Inr res, self, out)"
      by (rule first)
    show "map cls_name (classes res) = [''Outer'', ''Inner'']" by (rule names)
    show "file_path res = Some ''outer.py''" by (rule fp)
    show "fst (extract_from_file ?lib ?fs self ''missing.py'') = Inr res" by (rule second)
  qed
qed

end
